theory Spec2Isabelle
  imports Main "HOL-Library.Word"
begin

unbundle bit_operations_syntax

section \<open>The magnetic encoder driver (rham/linear/firmware/src/encoder.cpp)\<close>

text \<open>
  The driver keeps two static variables, \<open>last_update\<close> (\<open>unsigned long\<close>, 32 bits on
  the target) and \<open>last_encoder_value\<close> (\<open>uint16_t\<close>), and talks to the hardware through
  the Arduino core: \<open>pinMode\<close>, \<open>digitalWrite\<close>, \<open>delayMicroseconds\<close>, \<open>millis\<close>, the
  \<open>SPI\<close> object and the shell stream. The model passes the two variables explicitly and
  records every call to those collaborators, in program order, in a trace. What a
  collaborator returns (the value of \<open>millis()\<close>, the word clocked back by
  \<open>SPI.transfer16\<close>) is an argument of the function that makes the call.
\<close>

subsection \<open>Pins and hardware events\<close>

type_synonym pin = "8 word"

text \<open>
  The pin numbers are build-time constants: \<open>ENCODER_SCK\<close>, \<open>ENCODER_DO\<close> and
  \<open>ENCODER_SS\<close> come from \<open>config.h\<close>, \<open>SS\<close> and \<open>MOSI\<close> from the board's core. The
  driver fixes none of them, so the five constants are parameters of the model.
\<close>

record pins =
  SS :: pin
  MOSI :: pin
  ENCODER_SCK :: pin
  ENCODER_DO :: pin
  ENCODER_SS :: pin

datatype level = LOW | HIGH

datatype pin_mode = INPUT | OUTPUT

datatype bit_order = LSBFIRST | MSBFIRST

datatype data_mode = SPI_MODE0 | SPI_MODE1 | SPI_MODE2 | SPI_MODE3

datatype event =
    SpiBegin pin pin pin pin
  | SpiSetBitOrder bit_order
  | SpiSetFrequency nat
  | SpiSetDataMode data_mode
  | PinMode pin pin_mode
  | DigitalWrite pin level
  | DelayMicroseconds nat
  | SpiTransfer16 "16 word" "16 word"
  | ShellPrintf string "16 word"

text \<open>
  \<open>SpiBegin sck miso mosi ss\<close> has the argument order of \<open>SPI.begin\<close>;
  \<open>SpiTransfer16 out rx\<close> is one call \<open>SPI.transfer16(out)\<close> that returned \<open>rx\<close>;
  \<open>ShellPrintf fmt arg\<close> is one \<open>printf\<close> on the shell stream.
\<close>

subsection \<open>Module state\<close>

record encoder =
  last_update :: "32 word"
  last_encoder_value :: "16 word"
  trace :: "event list"

text \<open>Both statics have static storage duration, so they start at zero; nothing has
  happened on the hardware yet.\<close>

definition boot :: encoder where
  "boot = \<lparr>last_update = 0, last_encoder_value = 0, trace = []\<rparr>"

definition emit :: "event \<Rightarrow> encoder \<Rightarrow> encoder" where
  "emit e s = s\<lparr>trace := trace s @ [e]\<rparr>"

subsection \<open>The driver's functions\<close>

text \<open>\<open>encoder_clock\<close>, one clock pulse by hand; the source defines it and calls it nowhere.\<close>

definition encoder_clock :: "pins \<Rightarrow> encoder \<Rightarrow> encoder" where
  "encoder_clock p s =
     (let s1 = emit (DelayMicroseconds 1) s;
          s2 = emit (DigitalWrite (ENCODER_SCK p) HIGH) s1;
          s3 = emit (DelayMicroseconds 1) s2
      in emit (DigitalWrite (ENCODER_SCK p) LOW) s3)"

text \<open>\<open>encoder_read\<close> returns the cached value; the state is returned as it was.\<close>

definition encoder_read :: "encoder \<Rightarrow> 16 word \<times> encoder" where
  "encoder_read s = (last_encoder_value s, s)"

text \<open>
  The expression \<open>(value >> 6) & 0x3FF\<close>: \<open>value\<close> is a \<open>uint16_t\<close>, promoted to the
  32-bit signed \<open>int\<close> before the shift (so \<open>>>\<close> is the shift of a signed value), the
  mask is applied on \<open>int\<close>, and the initialisation of the \<open>uint16_t angle\<close> narrows
  the result to 16 bits.
\<close>

definition angle_of :: "16 word \<Rightarrow> 16 word" where
  "angle_of val = ucast ((signed_drop_bit 6 (ucast val :: 32 word)) AND 0x3FF)"

text \<open>\<open>encoder_update p val s\<close>: \<open>val\<close> is what \<open>SPI.transfer16(0)\<close> returns.\<close>

definition encoder_update :: "pins \<Rightarrow> 16 word \<Rightarrow> encoder \<Rightarrow> encoder" where
  "encoder_update p val s =
     (let s1 = emit (DigitalWrite (SS p) LOW) s;
          s2 = emit (DelayMicroseconds 1) s1;
          s3 = emit (SpiTransfer16 0 val) s2;
          s4 = emit (DigitalWrite (SS p) HIGH) s3;
          angle = angle_of val
      in s4\<lparr>last_encoder_value := angle\<rparr>)"

definition encoder_init :: "pins \<Rightarrow> 16 word \<Rightarrow> encoder \<Rightarrow> encoder" where
  "encoder_init p val s =
     (let s1 = emit (SpiBegin (ENCODER_SCK p) (ENCODER_DO p) (MOSI p) (ENCODER_SS p)) s;
          s2 = emit (SpiSetBitOrder MSBFIRST) s1;
          s3 = emit (SpiSetFrequency 1000000) s2;
          s4 = emit (SpiSetDataMode SPI_MODE1) s3;
          s5 = emit (PinMode (ENCODER_SS p) OUTPUT) s4;
          s6 = emit (DigitalWrite (ENCODER_SCK p) HIGH) s5
      in encoder_update p val s6)"

text \<open>
  \<open>encoder_tick p t1 t2 val s\<close>: \<open>t1\<close> is what \<open>millis()\<close> returns in the condition,
  \<open>t2\<close> what it returns in the assignment (the source calls it twice), \<open>val\<close> what the
  transfer returns. \<open>t2\<close> and \<open>val\<close> are only consumed when the branch is taken. The
  comparison is the unsigned one of \<open>unsigned long\<close>.
\<close>

definition encoder_tick :: "pins \<Rightarrow> 32 word \<Rightarrow> 32 word \<Rightarrow> 16 word \<Rightarrow> encoder \<Rightarrow> encoder" where
  "encoder_tick p t1 t2 val s =
     (if t1 > last_update s
      then encoder_update p val (s\<lparr>last_update := t2\<rparr>)
      else s)"

text \<open>The shell command \<open>mag\<close>: one \<open>printf("Value: %d\r\n", encoder_read())\<close>.\<close>

definition mag_format :: string where
  "mag_format = ''Value: %d'' @ [CHR 0x0D, CHR 0x0A]"

definition shell_mag :: "encoder \<Rightarrow> encoder" where
  "shell_mag s = (case encoder_read s of (v, s1) \<Rightarrow> emit (ShellPrintf mag_format v) s1)"

subsection \<open>Reading the trace\<close>

text \<open>The number of physical transfers a trace contains.\<close>

fun transfers :: "event list \<Rightarrow> nat" where
  "transfers [] = 0"
| "transfers (SpiTransfer16 out rx # es) = Suc (transfers es)"
| "transfers (e # es) = transfers es"

text \<open>The word clocked back by the most recent transfer of a trace, if there was one.\<close>

fun last_received :: "event list \<Rightarrow> 16 word option" where
  "last_received [] = None"
| "last_received (e # es) =
     (case last_received es of
        Some v \<Rightarrow> Some v
      | None \<Rightarrow> (case e of SpiTransfer16 out rx \<Rightarrow> Some rx | _ \<Rightarrow> None))"



text \<open>
  The cache is valid when it holds a 10-bit value that is the decoding of the word the
  most recent transfer returned.
\<close>

definition cached_valid :: "encoder \<Rightarrow> bool" where
  "cached_valid s =
     (unat (last_encoder_value s) \<le> 1023 \<and>
      (case last_received (trace s) of
         None \<Rightarrow> False
       | Some v \<Rightarrow> last_encoder_value s = angle_of v))"

subsection \<open>Executions\<close>

text \<open>
  The entry points the rest of the firmware can call, each with what the collaborators
  return during the call. \<open>Read\<close> discards the value \<open>encoder_read\<close> returns.
\<close>

datatype call =
    Init "16 word"
  | Tick "32 word" "32 word" "16 word"
  | Read
  | Mag

fun exec :: "pins \<Rightarrow> call \<Rightarrow> encoder \<Rightarrow> encoder" where
  "exec p (Init val) s = encoder_init p val s"
| "exec p (Tick t1 t2 val) s = encoder_tick p t1 t2 val s"
| "exec p Read s = snd (encoder_read s)"
| "exec p Mag s = shell_mag s"

fun run :: "pins \<Rightarrow> call list \<Rightarrow> encoder \<Rightarrow> encoder" where
  "run p [] s = s"
| "run p (c # cs) s = run p cs (exec p c s)"

text \<open>\<open>read_many n s\<close>: \<open>n\<close> calls of \<open>encoder_read\<close> in a row, with the values they return.\<close>

fun read_many :: "nat \<Rightarrow> encoder \<Rightarrow> 16 word list \<times> encoder" where
  "read_many 0 s = ([], s)"
| "read_many (Suc n) s =
     (case encoder_read s of (v, s1) \<Rightarrow>
        (case read_many n s1 of (vs, s2) \<Rightarrow> (v # vs, s2)))"

fun is_init :: "call \<Rightarrow> bool" where
  "is_init (Init val) = True"
| "is_init c = False"

text \<open>
  The two readings of \<open>millis()\<close> inside one \<open>Tick\<close> are ordered when the second is not
  below the first, as on a clock that does not go backwards.
\<close>

fun readings_ordered :: "call \<Rightarrow> bool" where
  "readings_ordered (Tick t1 t2 val) = (t1 \<le> t2)"
| "readings_ordered c = True"

text \<open>
  \<open>sample_times\<close> lists, in order, the clock value found in \<open>last_update\<close> after each
  call other than \<open>Init\<close> that added a transfer to the trace: the value a sampling
  \<open>encoder_tick\<close> read from the clock and stored.
\<close>

fun sample_times :: "pins \<Rightarrow> call list \<Rightarrow> encoder \<Rightarrow> 32 word list" where
  "sample_times p [] s = []"
| "sample_times p (c # cs) s =
     (let s1 = exec p c s
      in (if \<not> is_init c \<and> transfers (trace s) < transfers (trace s1)
          then [last_update s1] else [])
         @ sample_times p cs s1)"

text \<open>
  A timed execution pairs every call with the millisecond in which the transfer of the
  call, if it makes one, takes place. A \<open>Tick\<close> reads the clock before it transfers,
  so on a clock that does not go backwards its readings are ordered and neither is
  above that millisecond; the transfer follows the second reading by the settling delay
  and sixteen bit times, and may fall in the next millisecond. \<open>stamps\<close> lists, in
  order, the millisecond of every transfer the execution performs.
\<close>

fun clock_consistent :: "32 word \<times> call \<Rightarrow> bool" where
  "clock_consistent (t, Tick t1 t2 val) = (t1 \<le> t2 \<and> t2 \<le> t)"
| "clock_consistent (t, c) = True"

fun stamps :: "pins \<Rightarrow> (32 word \<times> call) list \<Rightarrow> encoder \<Rightarrow> 32 word list" where
  "stamps p [] s = []"
| "stamps p ((t, c) # cs) s =
     (let s1 = exec p c s
      in replicate (transfers (trace s1) - transfers (trace s)) t @ stamps p cs s1)"

subsection \<open>The pin constants\<close>


text \<open>An assignment of the five constants with one chip-select line, to evaluate the driver.\<close>

definition pins_shared :: pins where
  "pins_shared = \<lparr>SS = 5, MOSI = 23, ENCODER_SCK = 18, ENCODER_DO = 19, ENCODER_SS = 5\<rparr>"

section \<open>Basic facts\<close>

lemma transfers_append: "transfers (xs @ ys) = transfers xs + transfers ys"
  by (induction xs rule: transfers.induct) simp_all

lemma last_received_append:
  "last_received (xs @ ys) =
     (case last_received ys of Some v \<Rightarrow> Some v | None \<Rightarrow> last_received xs)"
  by (induction xs) (auto split: option.splits event.splits)

lemma encoder_update_eq:
  "encoder_update p val s =
     s\<lparr>last_encoder_value := angle_of val,
       trace := trace s @ [DigitalWrite (SS p) LOW, DelayMicroseconds 1,
                           SpiTransfer16 0 val, DigitalWrite (SS p) HIGH]\<rparr>"
  by (simp add: encoder_update_def Let_def emit_def)

lemma encoder_update_value:
  "last_encoder_value (encoder_update p val s) = angle_of val"
  by (simp add: encoder_update_eq)

lemma encoder_update_last_update:
  "last_update (encoder_update p val s) = last_update s"
  by (simp add: encoder_update_eq)

lemma encoder_update_transfers:
  "transfers (trace (encoder_update p val s)) = Suc (transfers (trace s))"
  by (simp add: encoder_update_eq transfers_append)

lemma encoder_update_last_received:
  "last_received (trace (encoder_update p val s)) = Some val"
  by (simp add: encoder_update_eq last_received_append)

lemma encoder_init_eq:
  "encoder_init p val s =
     s\<lparr>last_encoder_value := angle_of val,
       trace := trace s @
         [SpiBegin (ENCODER_SCK p) (ENCODER_DO p) (MOSI p) (ENCODER_SS p),
          SpiSetBitOrder MSBFIRST, SpiSetFrequency 1000000, SpiSetDataMode SPI_MODE1,
          PinMode (ENCODER_SS p) OUTPUT, DigitalWrite (ENCODER_SCK p) HIGH,
          DigitalWrite (SS p) LOW, DelayMicroseconds 1,
          SpiTransfer16 0 val, DigitalWrite (SS p) HIGH]\<rparr>"
  by (simp add: encoder_init_def encoder_update_eq Let_def emit_def)

lemma encoder_init_transfers:
  "transfers (trace (encoder_init p val s)) = Suc (transfers (trace s))"
  by (simp add: encoder_init_eq transfers_append)

lemma encoder_init_last_update:
  "last_update (encoder_init p val s) = last_update s"
  by (simp add: encoder_init_eq)

lemma encoder_tick_taken:
  "last_update s < t1 \<Longrightarrow>
   encoder_tick p t1 t2 val s = encoder_update p val (s\<lparr>last_update := t2\<rparr>)"
  by (simp add: encoder_tick_def)

lemma encoder_tick_skipped:
  "\<not> last_update s < t1 \<Longrightarrow> encoder_tick p t1 t2 val s = s"
  by (simp add: encoder_tick_def)

section \<open>Decoding\<close>

lemma angle_of_shift_mask: "angle_of val = (drop_bit 6 val) AND 0x3FF"
  unfolding angle_of_def
  by (rule bit_word_eqI) (auto simp: bit_simps)

lemma unat_angle_of: "unat (angle_of val) = unat val div 64 mod 1024"
proof -
  have "(drop_bit 6 val) AND (0x3FF :: 16 word) = take_bit 10 (drop_bit 6 val)"
    by (simp add: take_bit_eq_mask mask_eq_exp_minus_1)
  then show ?thesis
    by (simp add: angle_of_shift_mask unat_div unat_mod take_bit_eq_mod drop_bit_eq_div)
qed

lemma angle_of_range: "unat (angle_of val) \<le> 1023"
proof -
  have "unat val div 64 mod 1024 < 1024" by simp
  then show ?thesis by (simp add: unat_angle_of)
qed

text \<open>
  Claim C1. For every 16-bit word \<open>V\<close> captured by a physical sample, the angle stored in
  the cache is \<open>(V >> 6) & 0x3FF\<close>, that is \<open>V div 64 mod 1024\<close>; \<open>0xFFFF\<close> decodes to
  1023, \<open>0x0040\<close> to 1 and \<open>0x0000\<close> to 0.
\<close>

theorem decode_correct:
  "last_encoder_value (encoder_update p V s) = (drop_bit 6 V) AND 0x3FF
   \<and> unat (last_encoder_value (encoder_update p V s)) = unat V div 64 mod 1024
   \<and> last_encoder_value (encoder_update p 0xFFFF s) = 1023
   \<and> last_encoder_value (encoder_update p 0x0040 s) = 1
   \<and> last_encoder_value (encoder_update p 0x0000 s) = 0"
proof -
  have a: "last_encoder_value (encoder_update p V s) = (drop_bit 6 V) AND 0x3FF"
    by (simp add: encoder_update_value angle_of_shift_mask)
  have b: "unat (last_encoder_value (encoder_update p V s)) = unat V div 64 mod 1024"
    by (simp add: encoder_update_value unat_angle_of)
  have c: "last_encoder_value (encoder_update p 0xFFFF s) = 1023"
    by (simp add: encoder_update_value angle_of_shift_mask)
  have d: "last_encoder_value (encoder_update p 0x0040 s) = 1"
    by (simp add: encoder_update_value angle_of_shift_mask)
  have e: "last_encoder_value (encoder_update p 0x0000 s) = 0"
    by (simp add: encoder_update_value angle_of_shift_mask)
  from a b c d e show ?thesis by blast
qed

section \<open>The time gate of \<open>encoder_tick\<close>\<close>

text \<open>
  Claim C2. In every state where the clock reads more than the stored \<open>last_update\<close>,
  one call of \<open>encoder_tick\<close> performs exactly one transfer (the four hardware actions of
  one sample, appended to the trace), stores the clock reading in \<open>last_update\<close> and
  overwrites the cached angle with the decoding of the transferred word, whatever the
  cache held before. The source reads the clock twice: the gate tests the first reading
  \<open>t1\<close>, the second reading \<open>t2\<close> is stored; with a clock that shows one value during
  the call, \<open>t1 = t2\<close>.
\<close>

theorem tick_progression:
  assumes "last_update s < t1"
  shows "encoder_tick p t1 t2 val s =
           s\<lparr>last_update := t2,
             last_encoder_value := (drop_bit 6 val) AND 0x3FF,
             trace := trace s @ [DigitalWrite (SS p) LOW, DelayMicroseconds 1,
                                 SpiTransfer16 0 val, DigitalWrite (SS p) HIGH]\<rparr>
         \<and> transfers (trace (encoder_tick p t1 t2 val s)) = Suc (transfers (trace s))"
proof -
  have "encoder_tick p t1 t2 val s = encoder_update p val (s\<lparr>last_update := t2\<rparr>)"
    using assms by (rule encoder_tick_taken)
  then show ?thesis
    by (simp add: encoder_update_eq angle_of_shift_mask transfers_append)
qed

theorem tick_progression_witness:
  "last_update (encoder_init pins_shared 0xFFC0 boot) < 7
   \<and> last_encoder_value (encoder_init pins_shared 0xFFC0 boot) = 1023
   \<and> last_update (encoder_tick pins_shared 7 7 0xFFC0 (encoder_init pins_shared 0xFFC0 boot)) = 7
   \<and> last_encoder_value (encoder_tick pins_shared 7 7 0xFFC0 (encoder_init pins_shared 0xFFC0 boot)) = 1023
   \<and> transfers (trace (encoder_tick pins_shared 7 7 0xFFC0 (encoder_init pins_shared 0xFFC0 boot))) = 2"
proof -
  have h: "last_update (encoder_init pins_shared 0xFFC0 boot) < 7"
    by (simp add: encoder_init_eq boot_def)
  have v: "last_encoder_value (encoder_init pins_shared 0xFFC0 boot) = 1023"
    by (simp add: encoder_init_eq angle_of_shift_mask)
  have n: "transfers (trace (encoder_init pins_shared 0xFFC0 boot)) = 1"
    by (simp add: encoder_init_transfers boot_def)
  from tick_progression [OF h, of pins_shared 7 "0xFFC0"] h v n show ?thesis
    by (simp add: transfers_append)
qed

text \<open>
  Claim C3, as amended. Two calls of \<open>encoder_tick\<close> while the clock reads the same
  value \<open>t\<close> perform at most one transfer: exactly one when \<open>t\<close> is greater than the
  stored \<open>last_update\<close> before the first call, none otherwise. The second call returns
  the state as it was: cached angle, \<open>last_update\<close> and trace are unchanged.
\<close>

theorem tick_same_ms:
  "encoder_tick p t t v2 (encoder_tick p t t v1 s) = encoder_tick p t t v1 s
   \<and> transfers (trace (encoder_tick p t t v2 (encoder_tick p t t v1 s)))
       = transfers (trace s) + (if last_update s < t then 1 else 0)"
  by (simp add: encoder_tick_def encoder_update_eq transfers_append)

theorem tick_same_ms_witness:
  "encoder_tick pins_shared 3 3 0xFFC0 (encoder_tick pins_shared 3 3 0x8000 boot)
     = encoder_tick pins_shared 3 3 0x8000 boot
   \<and> transfers (trace (encoder_tick pins_shared 3 3 0xFFC0 (encoder_tick pins_shared 3 3 0x8000 boot))) = 1"
  using tick_same_ms [of pins_shared 3 "0xFFC0" "0x8000" boot]
  by (simp add: boot_def encoder_tick_def encoder_update_eq)

text \<open>
  Claim C3 as first stated (exactly one transfer in every state) does not hold: in the
  state reached from boot by \<open>encoder_init\<close> and one \<open>encoder_tick\<close> at clock 3, two
  more calls while the clock still reads 3 perform no transfer at all, not one.
\<close>

theorem tick_same_ms_counterexample:
  "\<not> transfers (trace
        (encoder_tick pins_shared 3 3 0x8000
          (encoder_tick pins_shared 3 3 0x8000
            (encoder_tick pins_shared 3 3 0x8000 (encoder_init pins_shared 0x8000 boot)))))
      = transfers (trace
          (encoder_tick pins_shared 3 3 0x8000 (encoder_init pins_shared 0x8000 boot))) + 1"
  by (simp add: encoder_tick_def encoder_init_eq encoder_update_eq boot_def transfers_append)

section \<open>Reading the cache\<close>

text \<open>
  Claim C4. Any number of calls of \<open>encoder_read\<close> in a row return the cached value each
  time and leave the whole state as it was: cached angle, \<open>last_update\<close> and trace, so
  no transfer is performed.
\<close>

theorem read_idempotent:
  "read_many n s = (replicate n (last_encoder_value s), s)
   \<and> encoder_read s = (last_encoder_value s, s)
   \<and> transfers (trace (snd (read_many n s))) = transfers (trace s)"
proof -
  have "read_many n s = (replicate n (last_encoder_value s), s)"
    by (induction n) (simp_all add: encoder_read_def)
  then show ?thesis by (simp add: encoder_read_def)
qed

text \<open>
  Claim C10. In the boot state, before \<open>encoder_init\<close> or anything else has run,
  \<open>encoder_read\<close> returns 0 and the \<open>mag\<close> command prints that 0, although the trace
  holds no transfer.
\<close>

theorem read_before_init:
  "fst (encoder_read boot) = 0
   \<and> transfers (trace boot) = 0
   \<and> last_received (trace boot) = None
   \<and> trace (shell_mag boot) = [ShellPrintf mag_format 0]
   \<and> fst (encoder_read (shell_mag boot)) = 0"
  by (simp add: encoder_read_def boot_def shell_mag_def emit_def)

section \<open>Initialisation\<close>

text \<open>
  Claim C5. \<open>encoder_init\<close> performs exactly one transfer, unconditionally, and
  \<open>encoder_read\<close> then returns the decoding of the transferred word: 512 when the bus
  returns \<open>0x8000\<close>. When \<open>encoder_tick\<close> is then called with the clock one millisecond
  further and the bus returning \<open>0xFFC0\<close>, \<open>encoder_read\<close> returns 1023. Here \<open>t0\<close> is
  the clock reading at the time of \<open>encoder_init\<close>: the stored \<open>last_update\<close> is not
  ahead of it, and the 32-bit counter does not wrap in the next millisecond.
\<close>

theorem init_then_tick:
  assumes "last_update s \<le> t0" and "t0 < 0xFFFFFFFF"
  shows "transfers (trace (encoder_init p val s)) = Suc (transfers (trace s))
     \<and> fst (encoder_read (encoder_init p val s)) = (drop_bit 6 val) AND 0x3FF
     \<and> fst (encoder_read (encoder_init p 0x8000 s)) = 512
     \<and> fst (encoder_read (encoder_tick p (t0 + 1) (t0 + 1) 0xFFC0 (encoder_init p 0x8000 s))) = 1023"
proof -
  have a: "transfers (trace (encoder_init p val s)) = Suc (transfers (trace s))"
    by (rule encoder_init_transfers)
  have b: "fst (encoder_read (encoder_init p val s)) = (drop_bit 6 val) AND 0x3FF"
    by (simp add: encoder_read_def encoder_init_eq angle_of_shift_mask)
  have c: "fst (encoder_read (encoder_init p 0x8000 s)) = 512"
    by (simp add: encoder_read_def encoder_init_eq angle_of_shift_mask)
  from assms(2) have "t0 < t0 + 1"
    by (simp add: word_less_nat_alt unat_word_ariths)
  with assms(1) have "last_update (encoder_init p 0x8000 s) < t0 + 1"
    by (simp add: encoder_init_last_update)
  then have "encoder_tick p (t0 + 1) (t0 + 1) 0xFFC0 (encoder_init p 0x8000 s)
       = encoder_update p 0xFFC0 ((encoder_init p 0x8000 s)\<lparr>last_update := t0 + 1\<rparr>)"
    by (rule encoder_tick_taken)
  then have d: "fst (encoder_read (encoder_tick p (t0 + 1) (t0 + 1) 0xFFC0 (encoder_init p 0x8000 s))) = 1023"
    by (simp add: encoder_read_def encoder_update_value angle_of_shift_mask)
  from a b c d show ?thesis by blast
qed

theorem init_then_tick_witness:
  "last_update boot \<le> 0 \<and> (0 :: 32 word) < 0xFFFFFFFF
   \<and> fst (encoder_read (encoder_init pins_shared 0x8000 boot)) = 512
   \<and> fst (encoder_read (encoder_tick pins_shared 1 1 0xFFC0 (encoder_init pins_shared 0x8000 boot))) = 1023"
proof -
  have h1: "last_update boot \<le> 0" by (simp add: boot_def)
  have h2: "(0 :: 32 word) < 0xFFFFFFFF" by simp
  from init_then_tick [OF h1 h2, of pins_shared "0x8000"] h1 h2 show ?thesis by simp
qed

section \<open>The cache invariant\<close>

lemma last_received_in_trace:
  "last_received es = Some v \<Longrightarrow> \<exists>out. SpiTransfer16 out v \<in> set es"
  by (induction es) (auto split: option.splits event.splits)

lemma cached_valid_update: "cached_valid (encoder_update p val s)"
  by (simp add: cached_valid_def encoder_update_value encoder_update_last_received angle_of_range)

lemma cached_valid_init: "cached_valid (encoder_init p val s)"
  by (simp add: encoder_init_def Let_def cached_valid_update)

lemma cached_valid_tick: "cached_valid s \<Longrightarrow> cached_valid (encoder_tick p t1 t2 val s)"
  by (simp add: encoder_tick_def cached_valid_update)

lemma cached_valid_mag: "cached_valid s \<Longrightarrow> cached_valid (shell_mag s)"
  by (auto simp: shell_mag_def encoder_read_def emit_def cached_valid_def last_received_append
      split: option.splits)

lemma cached_valid_exec: "cached_valid s \<Longrightarrow> cached_valid (exec p c s)"
  by (cases c) (simp_all add: cached_valid_init cached_valid_tick cached_valid_mag encoder_read_def)

lemma cached_valid_run: "cached_valid s \<Longrightarrow> cached_valid (run p cs s)"
  by (induction cs arbitrary: s) (simp_all add: cached_valid_exec)

text \<open>
  Claim C6. After \<open>encoder_init\<close>, and after any further sequence of calls of the
  driver's entry points, the cached angle is at most 1023 and is the decoding of a word
  that a transfer recorded in the trace returned (the most recent one).
\<close>

theorem cache_invariant:
  "cached_valid (run p cs (encoder_init p val s))
   \<and> unat (last_encoder_value (run p cs (encoder_init p val s))) \<le> 1023
   \<and> (\<exists>out rx. SpiTransfer16 out rx \<in> set (trace (run p cs (encoder_init p val s)))
         \<and> last_encoder_value (run p cs (encoder_init p val s)) = (drop_bit 6 rx) AND 0x3FF)"
proof -
  let ?s = "run p cs (encoder_init p val s)"
  have v: "cached_valid ?s"
    by (rule cached_valid_run) (rule cached_valid_init)
  then obtain rx where b: "last_received (trace ?s) = Some rx"
    and e: "last_encoder_value ?s = angle_of rx"
    by (auto simp: cached_valid_def split: option.splits)
  from b obtain out where "SpiTransfer16 out rx \<in> set (trace ?s)"
    using last_received_in_trace by blast
  with e have "\<exists>out rx. SpiTransfer16 out rx \<in> set (trace ?s)
         \<and> last_encoder_value ?s = (drop_bit 6 rx) AND 0x3FF"
    by (auto simp: angle_of_shift_mask)
  with v show ?thesis by (simp add: cached_valid_def)
qed

theorem cache_invariant_witness:
  "cached_valid (run pins_shared [Tick 1 1 0xFFC0, Read, Mag, Tick 1 1 0x0040]
                   (encoder_init pins_shared 0x8000 boot))
   \<and> last_encoder_value (run pins_shared [Tick 1 1 0xFFC0, Read, Mag, Tick 1 1 0x0040]
                   (encoder_init pins_shared 0x8000 boot)) = 1023"
  using cache_invariant [of pins_shared "[Tick 1 1 0xFFC0, Read, Mag, Tick 1 1 0x0040]" "0x8000" boot]
  by (simp add: encoder_init_eq encoder_tick_def encoder_update_eq encoder_read_def
      shell_mag_def emit_def boot_def angle_of_shift_mask)

section \<open>Transfers per millisecond\<close>

lemma exec_untimed:
  "\<not> is_init c \<Longrightarrow> \<forall>t1 t2 val. c \<noteq> Tick t1 t2 val \<Longrightarrow>
   last_update (exec p c s) = last_update s
   \<and> transfers (trace (exec p c s)) = transfers (trace s)"
  by (cases c) (simp_all add: encoder_read_def shell_mag_def emit_def transfers_append)

lemma sample_times_sorted:
  "\<forall>c\<in>set cs. readings_ordered c \<Longrightarrow>
   sorted_wrt (<) (sample_times p cs s)
   \<and> (\<forall>t\<in>set (sample_times p cs s). last_update s < t)"
proof (induction cs arbitrary: s)
  case Nil
  then show ?case by simp
next
  case (Cons c cs)
  from Cons.prems have rest: "\<forall>d\<in>set cs. readings_ordered d" by simp
  note IH = Cons.IH [OF rest]
  show ?case
  proof (cases c)
    case (Init val)
    then have "sample_times p (c # cs) s = sample_times p cs (encoder_init p val s)"
      by simp
    with IH [of "encoder_init p val s"] show ?thesis
      by (simp add: encoder_init_last_update)
  next
    case (Tick t1 t2 val)
    with Cons.prems have le: "t1 \<le> t2" by simp
    show ?thesis
    proof (cases "last_update s < t1")
      case True
      let ?s1 = "encoder_update p val (s\<lparr>last_update := t2\<rparr>)"
      have s1: "exec p c s = ?s1"
        using True Tick by (simp add: encoder_tick_taken)
      have lu: "last_update ?s1 = t2"
        by (simp add: encoder_update_last_update)
      have n: "transfers (trace s) < transfers (trace ?s1)"
        by (simp add: encoder_update_transfers)
      have st: "sample_times p (c # cs) s = t2 # sample_times p cs ?s1"
        using Tick s1 lu n by simp
      from True le have lt: "last_update s < t2" by simp
      from IH [of ?s1] lu have a: "sorted_wrt (<) (sample_times p cs ?s1)"
        and b: "\<forall>u\<in>set (sample_times p cs ?s1). t2 < u" by simp_all
      from b lt have "\<forall>u\<in>set (sample_times p cs ?s1). last_update s < u" by auto
      with a b lt st show ?thesis by simp
    next
      case False
      then have "exec p c s = s" using Tick by (simp add: encoder_tick_skipped)
      then have "sample_times p (c # cs) s = sample_times p cs s" by simp
      with IH [of s] show ?thesis by simp
    qed
  next
    case Read
    then have "sample_times p (c # cs) s = sample_times p cs s"
      by (simp add: encoder_read_def)
    with IH [of s] show ?thesis by simp
  next
    case Mag
    have "last_update (exec p c s) = last_update s
        \<and> transfers (trace (exec p c s)) = transfers (trace s)"
      using Mag by (intro exec_untimed) simp_all
    then have "sample_times p (c # cs) s = sample_times p cs (exec p c s)"
      and "last_update (exec p c s) = last_update s" by simp_all
    with IH [of "exec p c s"] show ?thesis by simp
  qed
qed

lemma run_transfers:
  "transfers (trace (run p cs s)) =
     transfers (trace s) + length (filter is_init cs) + length (sample_times p cs s)"
proof (induction cs arbitrary: s)
  case Nil
  then show ?case by simp
next
  case (Cons c cs)
  have "transfers (trace (exec p c s)) =
      transfers (trace s) + (if is_init c then 1 else 0)
      + (if \<not> is_init c \<and> transfers (trace s) < transfers (trace (exec p c s)) then 1 else 0)"
    by (cases c)
      (simp_all add: encoder_init_transfers encoder_tick_def encoder_update_transfers
        encoder_read_def shell_mag_def emit_def transfers_append)
  with Cons [of "exec p c s"] show ?case by (auto simp: Let_def)
qed

lemma sample_times_tick_taken:
  "last_update s < t1 \<Longrightarrow>
   sample_times p (Tick t1 t2 val # cs) s =
     t2 # sample_times p cs (encoder_update p val (s\<lparr>last_update := t2\<rparr>))"
  by (simp add: encoder_tick_taken encoder_update_transfers encoder_update_last_update)

lemma sample_times_tick_skipped:
  "\<not> last_update s < t1 \<Longrightarrow>
   sample_times p (Tick t1 t2 val # cs) s = sample_times p cs s"
  by (simp add: encoder_tick_skipped)

lemma strictly_sorted_count: "sorted_wrt (<) (xs :: 32 word list) \<Longrightarrow> count_list xs t \<le> 1"
proof (induction xs)
  case Nil
  then show ?case by simp
next
  case (Cons x xs)
  then have "t = x \<Longrightarrow> count_list xs t = 0"
    by (auto simp: count_list_0_iff)
  with Cons show ?case by auto
qed

text \<open>
  The limit is on the clock values that \<open>encoder_tick\<close> reads, not on the millisecond
  in which the transfer takes place: a tick that reads 5 and transfers after the clock
  has stepped to 6, followed by a tick that reads 6, makes two transfers in
  millisecond 6.
\<close>

lemma tick_boundary_example:
  "clock_consistent (6, Tick 5 5 0xFFC0) \<and> clock_consistent (6, Tick 6 6 0x0040)
   \<and> stamps pins_shared [(6, Tick 5 5 0xFFC0), (6, Tick 6 6 0x0040)]
        (encoder_init pins_shared 0x8000 boot) = [6, 6]
   \<and> sample_times pins_shared [Tick 5 5 0xFFC0, Tick 6 6 0x0040]
        (encoder_init pins_shared 0x8000 boot) = [5, 6]"
  by (simp add: encoder_init_eq encoder_tick_def encoder_update_eq boot_def transfers_append)

text \<open>
  Claim C7, as amended. In an execution of \<open>encoder_init\<close> followed by any calls of the
  driver, where no \<open>encoder_tick\<close> sees the clock go backwards between its two readings:
  the clock values stored by the sampling calls of \<open>encoder_tick\<close> strictly increase, so
  \<open>encoder_tick\<close> makes at most one transfer per clock value it reads and stores. The
  transfer of \<open>encoder_init\<close> is unconditional and leaves \<open>last_update\<close> as it was, so it
  stands outside that limit. The transfers of the execution are exactly the one of each
  \<open>encoder_init\<close> and those of the sampling ticks.
\<close>

theorem tick_transfers_per_ms:
  assumes "\<forall>c\<in>set cs. readings_ordered c"
  shows "transfers (trace (encoder_init p val s)) = Suc (transfers (trace s))
     \<and> last_update (encoder_init p val s) = last_update s
     \<and> sorted_wrt (<) (sample_times p cs (encoder_init p val s))
     \<and> (\<forall>t. count_list (sample_times p cs (encoder_init p val s)) t \<le> 1)
     \<and> transfers (trace (run p cs (encoder_init p val s))) =
         Suc (transfers (trace s)) + length (filter is_init cs)
         + length (sample_times p cs (encoder_init p val s))"
proof -
  let ?s0 = "encoder_init p val s"
  have a: "transfers (trace ?s0) = Suc (transfers (trace s))"
    by (rule encoder_init_transfers)
  have b: "last_update ?s0 = last_update s"
    by (rule encoder_init_last_update)
  from sample_times_sorted [OF assms, of p ?s0]
  have c: "sorted_wrt (<) (sample_times p cs ?s0)" by simp
  then have d: "\<forall>t. count_list (sample_times p cs ?s0) t \<le> 1"
    using strictly_sorted_count by blast
  have e: "transfers (trace (run p cs ?s0)) =
      Suc (transfers (trace s)) + length (filter is_init cs) + length (sample_times p cs ?s0)"
    by (simp add: run_transfers a)
  from a b c d e show ?thesis by blast
qed

theorem tick_transfers_per_ms_witness:
  "readings_ordered (Tick 5 5 0xFFC0) \<and> readings_ordered (Tick 5 6 0x0040)
   \<and> readings_ordered (Tick 6 7 0x0040)
   \<and> sample_times pins_shared [Tick 5 5 0xFFC0, Tick 5 6 0x0040, Tick 6 7 0x0040]
        (encoder_init pins_shared 0x8000 boot) = [5, 7]
   \<and> transfers (trace (run pins_shared [Tick 5 5 0xFFC0, Tick 5 6 0x0040, Tick 6 7 0x0040]
        (encoder_init pins_shared 0x8000 boot))) = 3"
proof -
  let ?cs = "[Tick 5 5 0xFFC0, Tick 5 6 0x0040, Tick 6 7 0x0040]"
  let ?s0 = "encoder_init pins_shared 0x8000 boot"
  have h: "\<forall>c\<in>set ?cs. readings_ordered c"
    by simp
  have l0: "last_update ?s0 = 0"
    by (simp add: encoder_init_last_update boot_def)
  let ?s1 = "encoder_update pins_shared 0xFFC0 (?s0\<lparr>last_update := 5\<rparr>)"
  have l1: "last_update ?s1 = 5"
    by (simp add: encoder_update_last_update)
  have e1: "sample_times pins_shared ?cs ?s0 =
      5 # sample_times pins_shared [Tick 5 6 0x0040, Tick 6 7 0x0040] ?s1"
    by (rule sample_times_tick_taken) (simp add: l0)
  have e2: "sample_times pins_shared [Tick 5 6 0x0040, Tick 6 7 0x0040] ?s1 =
      sample_times pins_shared [Tick 6 7 0x0040] ?s1"
    by (rule sample_times_tick_skipped) (simp add: l1)
  have e3: "sample_times pins_shared [Tick 6 7 0x0040] ?s1 =
      7 # sample_times pins_shared [] (encoder_update pins_shared 0x0040 (?s1\<lparr>last_update := 7\<rparr>))"
    by (rule sample_times_tick_taken) (simp add: l1)
  have e: "sample_times pins_shared ?cs ?s0 = [5, 7]"
    by (simp only: e1 e2 e3 sample_times.simps(1))
  have n: "transfers (trace (run pins_shared ?cs ?s0)) =
      Suc (transfers (trace boot)) + length (filter is_init ?cs)
      + length (sample_times pins_shared ?cs ?s0)"
    using tick_transfers_per_ms [OF h, of pins_shared "0x8000" boot] by (elim conjE)
  have "transfers (trace (run pins_shared ?cs ?s0)) = 3"
    by (simp only: n e) (simp add: boot_def)
  with e show ?thesis by simp
qed

text \<open>
  Claim C7 as first stated (the transfer of \<open>encoder_init\<close> counted with those of
  \<open>encoder_tick\<close>) does not hold: from boot, \<open>encoder_init\<close> and one \<open>encoder_tick\<close>,
  both while the clock reads 5, perform two transfers in millisecond 5.
\<close>

theorem one_transfer_per_ms_counterexample:
  "clock_consistent (5, Init 0x8000) \<and> clock_consistent (5, Tick 5 5 0xFFC0)
   \<and> \<not> count_list (stamps pins_shared [(5, Init 0x8000), (5, Tick 5 5 0xFFC0)] boot) 5 \<le> 1"
  by (simp add: encoder_init_eq encoder_tick_def encoder_update_eq boot_def transfers_append)

section \<open>The chip-select line\<close>








end
